theory Spec2Isabelle
  imports Main "HOL-Library.AList"
begin

section \<open>The run-time the module relies on\<close>

text \<open>
  \<^verbatim>\<open>src/result.ts\<close> builds objects, compares references with \<^verbatim>\<open>!==\<close>, freezes and
  seals what it builds and returns references to it. Several statements about it are
  about reference identity, so objects live in a store and a value is either a primitive
  or a reference into the store. Numbers are restricted to the integers: no function of
  the module does arithmetic on a payload.
\<close>

datatype val = VUndefined | VNull | VBool bool | VNum int | VStr string | VRef nat

text \<open>What a \<^verbatim>\<open>throw\<close> carries: an \<^verbatim>\<open>Error\<close> or a \<^verbatim>\<open>TypeError\<close> with its
  message, or any value thrown by code of the caller.\<close>

datatype exn = Error string | TypeError string | Thrown val

text \<open>An own data property with its attributes.\<close>

record property =
  pvalue :: val
  writable :: bool
  enumerable :: bool
  configurable :: bool

text \<open>The prototype an object was created with: \<^verbatim>\<open>Ok.prototype\<close>,
  \<^verbatim>\<open>Err.prototype\<close> or \<^verbatim>\<open>Object.prototype\<close>. Only the two classes carry the
  methods \<^verbatim>\<open>match\<close>, \<^verbatim>\<open>andThen\<close>, \<^verbatim>\<open>orElse\<close>, \<^verbatim>\<open>map\<close>, \<^verbatim>\<open>mapErr\<close>.\<close>

datatype cls = ObjectProto | OkProto | ErrProto

text \<open>An ordinary object: own properties in insertion order, and the
  \<^verbatim>\<open>[[Extensible]]\<close> flag.\<close>

record obj =
  proto :: cls
  props :: "(string \<times> property) list"
  extensible :: bool

text \<open>The store: a reference is an index, allocation appends.\<close>

type_synonym store = "obj list"

text \<open>The state a call runs in: the object store, and everything else code of the
  caller can read and write (its variables, its output), left abstract.\<close>

record 'w state =
  heap :: store
  world :: 'w

type_synonym ('w, 'a) js = "'w state \<Rightarrow> (exn + 'a) \<times> 'w state"

text \<open>A function supplied by the caller: it takes one argument, may read and change
  the state, and returns a value or throws.\<close>

type_synonym 'w fn = "val \<Rightarrow> ('w, val) js"

subsection \<open>Ordinary objects\<close>

definition data_property :: "val \<Rightarrow> property" where
  "data_property v = \<lparr>pvalue = v, writable = True, enumerable = True, configurable = True\<rparr>"

definition new_object :: "cls \<Rightarrow> obj" where
  "new_object c = \<lparr>proto = c, props = [], extensible = True\<rparr>"

text \<open>\<^verbatim>\<open>o.k\<close> read on an object, for a key that names no method: the own property's
  value, or \<^verbatim>\<open>undefined\<close>.\<close>

definition obj_get :: "obj \<Rightarrow> string \<Rightarrow> val" where
  "obj_get ob k = (case map_of (props ob) k of Some p \<Rightarrow> pvalue p | None \<Rightarrow> VUndefined)"

text \<open>\<^verbatim>\<open>o.k = v\<close>. A write to a read-only property, or a new property on an object
  that is not extensible, throws in strict code and is dropped silently in sloppy code.
  A key found on the prototype only (a method name) is a writable data property there, so
  the assignment creates an own property as for an absent key.\<close>

definition obj_set :: "bool \<Rightarrow> string \<Rightarrow> val \<Rightarrow> obj \<Rightarrow> exn + obj" where
  "obj_set strict k v ob =
     (case map_of (props ob) k of
        Some p \<Rightarrow>
          if writable p then Inr (ob\<lparr>props := AList.update k (p\<lparr>pvalue := v\<rparr>) (props ob)\<rparr>)
          else if strict then Inl (TypeError ''Cannot assign to read only property'')
          else Inr ob
      | None \<Rightarrow>
          if extensible ob then Inr (ob\<lparr>props := AList.update k (data_property v) (props ob)\<rparr>)
          else if strict then Inl (TypeError ''Cannot add property, object is not extensible'')
          else Inr ob)"

text \<open>\<^verbatim>\<open>delete o.k\<close>.\<close>

definition obj_delete :: "bool \<Rightarrow> string \<Rightarrow> obj \<Rightarrow> exn + obj" where
  "obj_delete strict k ob =
     (case map_of (props ob) k of
        None \<Rightarrow> Inr ob
      | Some p \<Rightarrow>
          if configurable p then Inr (ob\<lparr>props := AList.delete k (props ob)\<rparr>)
          else if strict then Inl (TypeError ''Cannot delete property'')
          else Inr ob)"

text \<open>\<^verbatim>\<open>Object.defineProperty(o, k, d)\<close> with a complete data descriptor \<open>d\<close>.\<close>

definition obj_define :: "string \<Rightarrow> property \<Rightarrow> obj \<Rightarrow> exn + obj" where
  "obj_define k d ob =
     (case map_of (props ob) k of
        None \<Rightarrow>
          if extensible ob then Inr (ob\<lparr>props := AList.update k d (props ob)\<rparr>)
          else Inl (TypeError ''Cannot define property, object is not extensible'')
      | Some p \<Rightarrow>
          if configurable p then Inr (ob\<lparr>props := AList.update k d (props ob)\<rparr>)
          else if configurable d \<or> enumerable d \<noteq> enumerable p
            then Inl (TypeError ''Cannot redefine property'')
          else if writable p then Inr (ob\<lparr>props := AList.update k d (props ob)\<rparr>)
          else if writable d \<or> pvalue d \<noteq> pvalue p
            then Inl (TypeError ''Cannot redefine property'')
          else Inr ob)"

text \<open>\<^verbatim>\<open>Object.setPrototypeOf(o, c)\<close>.\<close>

definition obj_setPrototypeOf :: "cls \<Rightarrow> obj \<Rightarrow> exn + obj" where
  "obj_setPrototypeOf c ob =
     (if c = proto ob then Inr ob
      else if extensible ob then Inr (ob\<lparr>proto := c\<rparr>)
      else Inl (TypeError ''#<Object> is not extensible''))"

text \<open>\<^verbatim>\<open>Object.preventExtensions\<close>, \<^verbatim>\<open>Object.seal\<close> and \<^verbatim>\<open>Object.freeze\<close> on an
  ordinary object: none of them can fail.\<close>

definition obj_preventExtensions :: "obj \<Rightarrow> obj" where
  "obj_preventExtensions ob = ob\<lparr>extensible := False\<rparr>"

definition obj_seal :: "obj \<Rightarrow> obj" where
  "obj_seal ob =
     ob\<lparr>props := map (\<lambda>(k, p). (k, p\<lparr>configurable := False\<rparr>)) (props ob),
        extensible := False\<rparr>"

definition obj_freeze :: "obj \<Rightarrow> obj" where
  "obj_freeze ob =
     ob\<lparr>props := map (\<lambda>(k, p). (k, p\<lparr>writable := False, configurable := False\<rparr>)) (props ob),
        extensible := False\<rparr>"

subsection \<open>The store\<close>

definition alloc :: "obj \<Rightarrow> store \<Rightarrow> nat \<times> store" where
  "alloc ob h = (length h, h @ [ob])"

text \<open>An operation on the object a reference names. A reference outside the store does
  not occur in a running program; the model answers it with a \<^verbatim>\<open>TypeError\<close>.\<close>

definition on_object :: "nat \<Rightarrow> (obj \<Rightarrow> exn + obj) \<Rightarrow> store \<Rightarrow> (exn + unit) \<times> store" where
  "on_object a f h =
     (if a < length h
      then (case f (h ! a) of Inl e \<Rightarrow> (Inl e, h) | Inr ob \<Rightarrow> (Inr (), h[a := ob]))
      else (Inl (TypeError ''not an object''), h))"

text \<open>\<^verbatim>\<open>x.k\<close> for any value \<open>x\<close>: reading a property of \<^verbatim>\<open>undefined\<close> or
  \<^verbatim>\<open>null\<close> throws, the other primitives have none of the properties read here.\<close>

definition get_prop :: "store \<Rightarrow> val \<Rightarrow> string \<Rightarrow> exn + val" where
  "get_prop h x k =
     (case x of
        VRef a \<Rightarrow> if a < length h then Inr (obj_get (h ! a) k)
                  else Inl (TypeError ''not an object'')
      | VUndefined \<Rightarrow> Inl (TypeError ''Cannot read properties of undefined'')
      | VNull \<Rightarrow> Inl (TypeError ''Cannot read properties of null'')
      | _ \<Rightarrow> Inr VUndefined)"

text \<open>\<^verbatim>\<open>this.k\<close> inside a method, where \<^verbatim>\<open>this\<close> is the receiver's reference.\<close>

definition this_get :: "store \<Rightarrow> nat \<Rightarrow> string \<Rightarrow> val" where
  "this_get h this k = (if this < length h then obj_get (h ! this) k else VUndefined)"

text \<open>\<^verbatim>\<open>Object.freeze(x)\<close> and \<^verbatim>\<open>Object.seal(x)\<close>: a value that is not an object is
  left alone.\<close>

definition Object_freeze :: "val \<Rightarrow> store \<Rightarrow> store" where
  "Object_freeze x h =
     (case x of
        VRef a \<Rightarrow> if a < length h then h[a := obj_freeze (h ! a)] else h
      | _ \<Rightarrow> h)"

definition Object_seal :: "val \<Rightarrow> store \<Rightarrow> store" where
  "Object_seal x h =
     (case x of
        VRef a \<Rightarrow> if a < length h then h[a := obj_seal (h ! a)] else h
      | _ \<Rightarrow> h)"

text \<open>\<^verbatim>\<open>a !== b\<close>. Without \<^verbatim>\<open>NaN\<close> among the values, two values are strictly equal
  exactly when they are the same primitive or the same reference.\<close>

definition strict_not_equal :: "val \<Rightarrow> val \<Rightarrow> bool" where
  "strict_not_equal a b = (a \<noteq> b)"

section \<open>The module \<^verbatim>\<open>src/result.ts\<close>\<close>

text \<open>\<^verbatim>\<open>const constructorMarker: PrivateConstructorMarker = {}\<close> is the first
  allocation the module makes when it is loaded: the marker is the reference to that
  object, and \<open>module_heap\<close> is the store right after loading into an empty one.\<close>

definition constructorMarker :: val where
  "constructorMarker = VRef 0"

definition module_heap :: store where
  "module_heap = snd (alloc (new_object ObjectProto) [])"

definition assertPrivateConstructor :: "val \<Rightarrow> exn + unit" where
  "assertPrivateConstructor marker =
     (if strict_not_equal marker constructorMarker
      then Inl (Error ''This function can only be called by Result internals.'')
      else Inr ())"

definition preventAbuse :: "val \<Rightarrow> store \<Rightarrow> store" where
  "preventAbuse ob h = Object_seal ob (Object_freeze ob h)"

text \<open>A field initialiser of a class body (\<^verbatim>\<open>readonly type = 'ok' as const\<close>): it runs
  on the new object before the constructor's own statements.\<close>

definition init_field :: "nat \<Rightarrow> string \<Rightarrow> val \<Rightarrow> store \<Rightarrow> store" where
  "init_field this k v h =
     (if this < length h
      then h[this := (h ! this)\<lparr>props := AList.update k (data_property v) (props (h ! this))\<rparr>]
      else h)"

text \<open>\<^verbatim>\<open>new Ok(value, marker)\<close>: the object is created and its three discriminant
  fields are initialised, then the constructor's body runs: the marker check, the
  (strict) assignment of the payload, \<^verbatim>\<open>preventAbuse(this)\<close>.\<close>

definition Ok_constructor :: "val \<Rightarrow> val \<Rightarrow> ('w, val) js" where
  "Ok_constructor value marker s =
     (let (this, h0) = alloc (new_object OkProto) (heap s);
          h1 = init_field this ''type'' (VStr ''ok'') h0;
          h2 = init_field this ''isOk'' (VBool True) h1;
          h3 = init_field this ''isErr'' (VBool False) h2
      in case assertPrivateConstructor marker of
           Inl e \<Rightarrow> (Inl e, s\<lparr>heap := h3\<rparr>)
         | Inr _ \<Rightarrow>
             (case on_object this (obj_set True ''value'' value) h3 of
                (Inl e, h4) \<Rightarrow> (Inl e, s\<lparr>heap := h4\<rparr>)
              | (Inr _, h4) \<Rightarrow> (Inr (VRef this), s\<lparr>heap := preventAbuse (VRef this) h4\<rparr>)))"

definition Err_constructor :: "val \<Rightarrow> val \<Rightarrow> ('w, val) js" where
  "Err_constructor error marker s =
     (let (this, h0) = alloc (new_object ErrProto) (heap s);
          h1 = init_field this ''type'' (VStr ''err'') h0;
          h2 = init_field this ''isOk'' (VBool False) h1;
          h3 = init_field this ''isErr'' (VBool True) h2
      in case assertPrivateConstructor marker of
           Inl e \<Rightarrow> (Inl e, s\<lparr>heap := h3\<rparr>)
         | Inr _ \<Rightarrow>
             (case on_object this (obj_set True ''error'' error) h3 of
                (Inl e, h4) \<Rightarrow> (Inl e, s\<lparr>heap := h4\<rparr>)
              | (Inr _, h4) \<Rightarrow> (Inr (VRef this), s\<lparr>heap := preventAbuse (VRef this) h4\<rparr>)))"

text \<open>The two exported factories.\<close>

definition ok :: "val \<Rightarrow> ('w, val) js" where
  "ok value s = Ok_constructor value constructorMarker s"

definition err :: "val \<Rightarrow> ('w, val) js" where
  "err error s = Err_constructor error constructorMarker s"

text \<open>The argument of \<^verbatim>\<open>match\<close>: an object with the two handlers.\<close>

record 'w handlers =
  ok_handler :: "'w fn"
  err_handler :: "'w fn"

subsection \<open>The methods of \<^verbatim>\<open>class Ok\<close>\<close>

definition Ok_match :: "nat \<Rightarrow> 'w handlers \<Rightarrow> ('w, val) js" where
  "Ok_match this hs s = ok_handler hs (this_get (heap s) this ''value'') s"

definition Ok_andThen :: "nat \<Rightarrow> 'w fn \<Rightarrow> ('w, val) js" where
  "Ok_andThen this fn s = fn (this_get (heap s) this ''value'') s"

definition Ok_orElse :: "nat \<Rightarrow> 'w fn \<Rightarrow> ('w, val) js" where
  "Ok_orElse this fn_unused s = (Inr (VRef this), s)"

definition Ok_map :: "nat \<Rightarrow> 'w fn \<Rightarrow> ('w, val) js" where
  "Ok_map this fn s =
     (case fn (this_get (heap s) this ''value'') s of
        (Inl e, s') \<Rightarrow> (Inl e, s')
      | (Inr x, s') \<Rightarrow> ok x s')"

definition Ok_mapErr :: "nat \<Rightarrow> 'w fn \<Rightarrow> ('w, val) js" where
  "Ok_mapErr this fn_unused s = (Inr (VRef this), s)"

subsection \<open>The methods of \<^verbatim>\<open>class Err\<close>\<close>

definition Err_match :: "nat \<Rightarrow> 'w handlers \<Rightarrow> ('w, val) js" where
  "Err_match this hs s = err_handler hs (this_get (heap s) this ''error'') s"

definition Err_andThen :: "nat \<Rightarrow> 'w fn \<Rightarrow> ('w, val) js" where
  "Err_andThen this fn_unused s = (Inr (VRef this), s)"

definition Err_orElse :: "nat \<Rightarrow> 'w fn \<Rightarrow> ('w, val) js" where
  "Err_orElse this fn s = fn (this_get (heap s) this ''error'') s"

definition Err_map :: "nat \<Rightarrow> 'w fn \<Rightarrow> ('w, val) js" where
  "Err_map this fn_unused s = (Inr (VRef this), s)"

definition Err_mapErr :: "nat \<Rightarrow> 'w fn \<Rightarrow> ('w, val) js" where
  "Err_mapErr this fn s =
     (case fn (this_get (heap s) this ''error'') s of
        (Inl e, s') \<Rightarrow> (Inl e, s')
      | (Inr x, s') \<Rightarrow> err x s')"

subsection \<open>Method calls on a \<^verbatim>\<open>Result<V, E>\<close>\<close>

text \<open>\<^verbatim>\<open>r.m(arg)\<close>: the method is looked up on the receiver's prototype. A value that
  is no instance of either class has no such method, and the call throws.\<close>

definition dispatch ::
  "(nat \<Rightarrow> 'a \<Rightarrow> ('w, val) js) \<Rightarrow> (nat \<Rightarrow> 'a \<Rightarrow> ('w, val) js) \<Rightarrow> val \<Rightarrow> 'a \<Rightarrow> ('w, val) js" where
  "dispatch ok_method err_method r arg s =
     (case r of
        VRef a \<Rightarrow>
          if a < length (heap s)
          then (case proto (heap s ! a) of
                  OkProto \<Rightarrow> ok_method a arg s
                | ErrProto \<Rightarrow> err_method a arg s
                | ObjectProto \<Rightarrow> (Inl (TypeError ''not a function''), s))
          else (Inl (TypeError ''not a function''), s)
      | _ \<Rightarrow> (Inl (TypeError ''not a function''), s))"

definition match :: "val \<Rightarrow> 'w handlers \<Rightarrow> ('w, val) js" where
  "match = dispatch Ok_match Err_match"

definition andThen :: "val \<Rightarrow> 'w fn \<Rightarrow> ('w, val) js" where
  "andThen = dispatch Ok_andThen Err_andThen"

definition orElse :: "val \<Rightarrow> 'w fn \<Rightarrow> ('w, val) js" where
  "orElse = dispatch Ok_orElse Err_orElse"

definition map_result :: "val \<Rightarrow> 'w fn \<Rightarrow> ('w, val) js" where
  "map_result = dispatch Ok_map Err_map"

definition mapErr :: "val \<Rightarrow> 'w fn \<Rightarrow> ('w, val) js" where
  "mapErr = dispatch Ok_mapErr Err_mapErr"

section \<open>What an instance looks like\<close>

definition frozen_property :: "val \<Rightarrow> property" where
  "frozen_property v = \<lparr>pvalue = v, writable = False, enumerable = True, configurable = False\<rparr>"

definition Ok_instance :: "val \<Rightarrow> obj" where
  "Ok_instance v =
     \<lparr>proto = OkProto,
      props = [(''type'', frozen_property (VStr ''ok'')),
               (''isOk'', frozen_property (VBool True)),
               (''isErr'', frozen_property (VBool False)),
               (''value'', frozen_property v)],
      extensible = False\<rparr>"

definition Err_instance :: "val \<Rightarrow> obj" where
  "Err_instance e =
     \<lparr>proto = ErrProto,
      props = [(''type'', frozen_property (VStr ''err'')),
               (''isOk'', frozen_property (VBool False)),
               (''isErr'', frozen_property (VBool True)),
               (''error'', frozen_property e)],
      extensible = False\<rparr>"

text \<open>\<^verbatim>\<open>r instanceof Ok\<close> and \<^verbatim>\<open>r instanceof Err\<close>.\<close>

definition class_of :: "store \<Rightarrow> val \<Rightarrow> cls option" where
  "class_of h r =
     (case r of VRef a \<Rightarrow> if a < length h then Some (proto (h ! a)) else None | _ \<Rightarrow> None)"

text \<open>A \<^verbatim>\<open>Result<V, E>\<close> as its user sees it: the variant and the payload.\<close>

datatype rview = OkV val | ErrV val

definition view :: "store \<Rightarrow> val \<Rightarrow> rview option" where
  "view h r =
     (case r of
        VRef a \<Rightarrow>
          if a < length h
          then (if h ! a = Ok_instance (obj_get (h ! a) ''value'')
                  then Some (OkV (obj_get (h ! a) ''value''))
                else if h ! a = Err_instance (obj_get (h ! a) ''error'')
                  then Some (ErrV (obj_get (h ! a) ''error''))
                else None)
          else None
      | _ \<Rightarrow> None)"

section \<open>Code of the caller\<close>

text \<open>Two expressions in sequence, the second using the value of the first, as in
  \<^verbatim>\<open>ok(v).andThen(f)\<close>: an exception of the first ends the evaluation.\<close>

definition bind :: "('w, 'a) js \<Rightarrow> ('a \<Rightarrow> ('w, 'b) js) \<Rightarrow> ('w, 'b) js" where
  "bind m k s = (case m s of (Inl e, s') \<Rightarrow> (Inl e, s') | (Inr x, s') \<Rightarrow> k x s')"

text \<open>A handler that records each of its invocations, as the handlers of
  \<^verbatim>\<open>src/result.test.ts\<close> do with \<^verbatim>\<open>flunk(t, 'should not call fn')\<close>. The record is
  kept in a part of the caller's world that the wrapped function cannot reach.\<close>

definition calls :: "((string \<times> val) list \<times> 'w) state \<Rightarrow> (string \<times> val) list" where
  "calls s = fst (world s)"

definition logged :: "string \<Rightarrow> 'w fn \<Rightarrow> ((string \<times> val) list \<times> 'w) fn" where
  "logged name f v s =
     (case f v \<lparr>heap = heap s, world = snd (world s)\<rparr> of
        (r, s') \<Rightarrow> (r, \<lparr>heap = heap s', world = (fst (world s) @ [(name, v)], world s')\<rparr>))"

subsection \<open>Attempts to change an object\<close>

text \<open>Everything code can do to an object it holds a reference to: assign to a
  property or delete it (in strict or sloppy code), redefine it, replace the prototype,
  and the three integrity calls.\<close>

datatype attempt =
    Assign bool nat string val
  | Delete bool nat string
  | DefineProperty nat string property
  | SetPrototypeOf nat cls
  | PreventExtensions nat
  | Seal nat
  | Freeze nat

fun perform :: "attempt \<Rightarrow> store \<Rightarrow> (exn + unit) \<times> store" where
  "perform (Assign strict a k v) h = on_object a (obj_set strict k v) h"
| "perform (Delete strict a k) h = on_object a (obj_delete strict k) h"
| "perform (DefineProperty a k d) h = on_object a (obj_define k d) h"
| "perform (SetPrototypeOf a c) h = on_object a (obj_setPrototypeOf c) h"
| "perform (PreventExtensions a) h = on_object a (\<lambda>ob. Inr (obj_preventExtensions ob)) h"
| "perform (Seal a) h = on_object a (\<lambda>ob. Inr (obj_seal ob)) h"
| "perform (Freeze a) h = on_object a (\<lambda>ob. Inr (obj_freeze ob)) h"

text \<open>A run of attempts, each inside its own \<^verbatim>\<open>try { } catch { }\<close>.\<close>

fun perform_all :: "attempt list \<Rightarrow> store \<Rightarrow> store" where
  "perform_all [] h = h"
| "perform_all (x # xs) h = perform_all xs (snd (perform x h))"

text \<open>\<^verbatim>\<open>Object.isFrozen(o)\<close>.\<close>

definition frozen_obj :: "obj \<Rightarrow> bool" where
  "frozen_obj ob =
     (\<not> extensible ob \<and> list_all (\<lambda>(k, p). \<not> writable p \<and> \<not> configurable p) (props ob))"

text \<open>Every frozen object of \<open>h\<close> is the same object in \<open>h'\<close>.\<close>

definition keeps_frozen :: "store \<Rightarrow> store \<Rightarrow> bool" where
  "keeps_frozen h h' =
     (\<forall>a < length h. frozen_obj (h ! a) \<longrightarrow> a < length h' \<and> h' ! a = h ! a)"

text \<open>A supplied function that changes objects through the operations above only, so
  that it cannot change a frozen one.\<close>

definition respects_frozen :: "'w fn \<Rightarrow> bool" where
  "respects_frozen f = (\<forall>v s. keeps_frozen (heap s) (heap (snd (f v s))))"

text \<open>The outcome of a call on receiver \<open>r\<close> started in state \<open>s\<close> is the receiver
  itself or an instance that the call has constructed: one that is an instance afterwards
  and was none before. An outcome that is an exception says nothing about a returned
  value.\<close>

definition receiver_or_fresh :: "val \<Rightarrow> 'w state \<Rightarrow> (exn + val) \<times> 'w state \<Rightarrow> bool" where
  "receiver_or_fresh r s res =
     (case res of
        (Inl e, s') \<Rightarrow> True
      | (Inr x, s') \<Rightarrow> x = r \<or> (view (heap s) x = None \<and> view (heap s') x \<noteq> None))"

subsection \<open>Example inputs\<close>

text \<open>The state right after the module is loaded, with nothing in the caller's world.\<close>

definition loaded :: "unit state" where
  "loaded = \<lparr>heap = module_heap, world = ()\<rparr>"

text \<open>The same with an empty record of calls in the caller's world.\<close>

definition loaded_logging :: "((string \<times> val) list \<times> unit) state" where
  "loaded_logging = \<lparr>heap = module_heap, world = ([], ())\<rparr>"

text \<open>\<^verbatim>\<open>const r = ok(1)\<close> and \<^verbatim>\<open>const r = err(1)\<close> after loading: \<open>r\<close> is
  reference 1.\<close>

definition ok_one :: "unit state" where
  "ok_one = snd (ok (VNum 1) loaded)"

definition err_one :: "unit state" where
  "err_one = snd (err (VNum 1) loaded)"

definition ok_one_logging :: "((string \<times> val) list \<times> unit) state" where
  "ok_one_logging = snd (ok (VNum 1) loaded_logging)"

definition err_one_logging :: "((string \<times> val) list \<times> unit) state" where
  "err_one_logging = snd (err (VNum 1) loaded_logging)"

text \<open>\<^verbatim>\<open>const a = ok(2); const b = ok(1)\<close> after loading: \<open>a\<close> is reference 1 and
  \<open>b\<close> is reference 2.\<close>

definition two_oks :: "unit state" where
  "two_oks = snd (ok (VNum 1) (snd (ok (VNum 2) loaded)))"

text \<open>\<^verbatim>\<open>const payload = {n: 1}\<close> after loading: \<open>payload\<close> is reference 1.\<close>

definition with_payload :: "unit state" where
  "with_payload =
     loaded\<lparr>heap := module_heap @
       [\<lparr>proto = ObjectProto, props = [(''n'', data_property (VNum 1))], extensible = True\<rparr>]\<rparr>"

text \<open>\<^verbatim>\<open>_ => x\<close>, \<^verbatim>\<open>x => x\<close> and \<^verbatim>\<open>x => ok(x + 1)\<close> (on a number).\<close>

definition const_fn :: "val \<Rightarrow> 'w fn" where
  "const_fn x v s = (Inr x, s)"

definition id_fn :: "'w fn" where
  "id_fn v s = (Inr v, s)"

definition plus_one :: "val \<Rightarrow> val" where
  "plus_one v = (case v of VNum n \<Rightarrow> VNum (n + 1) | _ \<Rightarrow> VUndefined)"

definition ok_plus_one :: "'w fn" where
  "ok_plus_one v s = ok (plus_one v) s"

definition plus_one_fn :: "'w fn" where
  "plus_one_fn v s = (Inr (plus_one v), s)"

text \<open>The function the tests pass where no call is expected,
  \<^verbatim>\<open>() => { flunk(t, 'should not call fn') }\<close>: it throws whenever it is called. And
  \<^verbatim>\<open>x => { if (x === 0) throw new Error('zero'); return ok(x) }\<close>, which throws on
  one argument only.\<close>

definition flunk :: "'w fn" where
  "flunk v s = (Inl (Error ''flunked''), s)"

definition picky :: "'w fn" where
  "picky v s = (if v = VNum 0 then (Inl (Error ''zero''), s) else ok v s)"

text \<open>Attempts on reference 1: overwrite the payload and a discriminant in strict and in
  sloppy code, add a field, delete the payload, redefine it, swap the prototype.\<close>

definition tampering :: "attempt list" where
  "tampering =
     [Assign True 1 ''value'' (VNum 9), Assign False 1 ''value'' (VNum 9),
      Assign False 1 ''error'' (VNum 9), Assign False 1 ''type'' (VStr ''err''),
      Assign False 1 ''isOk'' (VBool False), Assign False 1 ''isErr'' (VBool True),
      Assign False 1 ''extra'' (VNum 0), Delete False 1 ''value'',
      DefineProperty 1 ''value'' (data_property (VNum 9)), SetPrototypeOf 1 ErrProto]"

section \<open>Construction\<close>

lemma module_load: "alloc (new_object ObjectProto) [] = (0, module_heap)"
  by (simp add: module_heap_def alloc_def)

lemma Ok_constructor_marker:
  "Ok_constructor v constructorMarker s =
     (Inr (VRef (length (heap s))), s\<lparr>heap := heap s @ [Ok_instance v]\<rparr>)"
  by (simp add: Ok_constructor_def alloc_def init_field_def new_object_def
      assertPrivateConstructor_def strict_not_equal_def on_object_def obj_set_def
      data_property_def preventAbuse_def Object_freeze_def Object_seal_def obj_freeze_def
      obj_seal_def Ok_instance_def frozen_property_def nth_append)

lemma Err_constructor_marker:
  "Err_constructor e constructorMarker s =
     (Inr (VRef (length (heap s))), s\<lparr>heap := heap s @ [Err_instance e]\<rparr>)"
  by (simp add: Err_constructor_def alloc_def init_field_def new_object_def
      assertPrivateConstructor_def strict_not_equal_def on_object_def obj_set_def
      data_property_def preventAbuse_def Object_freeze_def Object_seal_def obj_freeze_def
      obj_seal_def Err_instance_def frozen_property_def nth_append)

lemma ok_run:
  "ok v s = (Inr (VRef (length (heap s))), s\<lparr>heap := heap s @ [Ok_instance v]\<rparr>)"
  by (simp add: ok_def Ok_constructor_marker)

lemma err_run:
  "err e s = (Inr (VRef (length (heap s))), s\<lparr>heap := heap s @ [Err_instance e]\<rparr>)"
  by (simp add: err_def Err_constructor_marker)

text \<open>
  C1. For every value \<open>v\<close>, \<^verbatim>\<open>ok(v)\<close> returns a reference to an instance of \<^verbatim>\<open>Ok\<close>
  whose \<^verbatim>\<open>type\<close> reads \<^verbatim>\<open>"ok"\<close>, whose \<^verbatim>\<open>isOk\<close> reads \<^verbatim>\<open>true\<close>, whose
  \<^verbatim>\<open>isErr\<close> reads \<^verbatim>\<open>false\<close> and whose \<^verbatim>\<open>value\<close> reads \<open>v\<close>; for every error \<open>e\<close>,
  \<^verbatim>\<open>err(e)\<close> returns a reference to an instance of \<^verbatim>\<open>Err\<close> whose \<^verbatim>\<open>type\<close> reads
  \<^verbatim>\<open>"err"\<close>, whose \<^verbatim>\<open>isOk\<close> reads \<^verbatim>\<open>false\<close>, whose \<^verbatim>\<open>isErr\<close> reads \<^verbatim>\<open>true\<close> and
  whose \<^verbatim>\<open>error\<close> reads \<open>e\<close>.
\<close>

theorem factories_build_variants:
  "(\<exists>r s'. ok v s = (Inr r, s') \<and>
      class_of (heap s') r = Some OkProto \<and>
      get_prop (heap s') r ''type'' = Inr (VStr ''ok'') \<and>
      get_prop (heap s') r ''isOk'' = Inr (VBool True) \<and>
      get_prop (heap s') r ''isErr'' = Inr (VBool False) \<and>
      get_prop (heap s') r ''value'' = Inr v) \<and>
   (\<exists>r s'. err e s = (Inr r, s') \<and>
      class_of (heap s') r = Some ErrProto \<and>
      get_prop (heap s') r ''type'' = Inr (VStr ''err'') \<and>
      get_prop (heap s') r ''isOk'' = Inr (VBool False) \<and>
      get_prop (heap s') r ''isErr'' = Inr (VBool True) \<and>
      get_prop (heap s') r ''error'' = Inr e)"
  by (simp add: ok_run err_run class_of_def get_prop_def obj_get_def Ok_instance_def
      Err_instance_def frozen_property_def)

section \<open>Instances in the store\<close>

lemma obj_get_Ok_instance: "obj_get (Ok_instance v) ''value'' = v"
  by (simp add: obj_get_def Ok_instance_def frozen_property_def)

lemma obj_get_Err_instance: "obj_get (Err_instance e) ''error'' = e"
  by (simp add: obj_get_def Err_instance_def frozen_property_def)

lemma Ok_instance_neq_Err_instance: "Ok_instance v \<noteq> Err_instance e"
  by (simp add: Ok_instance_def Err_instance_def)

lemma view_Ok_iff:
  "view h r = Some (OkV v) \<longleftrightarrow> (\<exists>a. r = VRef a \<and> a < length h \<and> h ! a = Ok_instance v)"
  by (cases r) (auto simp: view_def obj_get_Ok_instance Ok_instance_neq_Err_instance)

lemma view_Err_iff:
  "view h r = Some (ErrV e) \<longleftrightarrow> (\<exists>a. r = VRef a \<and> a < length h \<and> h ! a = Err_instance e)"
  by (cases r) (auto simp: view_def obj_get_Err_instance Ok_instance_neq_Err_instance
      Ok_instance_neq_Err_instance [symmetric])

section \<open>The operations, by variant of the receiver\<close>

lemma dispatch_Ok:
  "view (heap s) r = Some (OkV v) \<Longrightarrow>
   dispatch okm errm r arg s = okm (case r of VRef a \<Rightarrow> a) arg s"
  by (auto simp: view_Ok_iff dispatch_def Ok_instance_def)

lemma dispatch_Err:
  "view (heap s) r = Some (ErrV e) \<Longrightarrow>
   dispatch okm errm r arg s = errm (case r of VRef a \<Rightarrow> a) arg s"
  by (auto simp: view_Err_iff dispatch_def Err_instance_def)

lemma match_Ok: "view (heap s) r = Some (OkV v) \<Longrightarrow> match r hs s = ok_handler hs v s"
  by (auto simp: match_def dispatch_Ok Ok_match_def this_get_def view_Ok_iff obj_get_Ok_instance)

lemma match_Err: "view (heap s) r = Some (ErrV e) \<Longrightarrow> match r hs s = err_handler hs e s"
  by (auto simp: match_def dispatch_Err Err_match_def this_get_def view_Err_iff obj_get_Err_instance)

lemma andThen_Ok: "view (heap s) r = Some (OkV v) \<Longrightarrow> andThen r f s = f v s"
  by (auto simp: andThen_def dispatch_Ok Ok_andThen_def this_get_def view_Ok_iff obj_get_Ok_instance)

lemma andThen_Err: "view (heap s) r = Some (ErrV e) \<Longrightarrow> andThen r f s = (Inr r, s)"
  by (auto simp: andThen_def dispatch_Err Err_andThen_def view_Err_iff)

lemma orElse_Ok: "view (heap s) r = Some (OkV v) \<Longrightarrow> orElse r f s = (Inr r, s)"
  by (auto simp: orElse_def dispatch_Ok Ok_orElse_def view_Ok_iff)

lemma orElse_Err: "view (heap s) r = Some (ErrV e) \<Longrightarrow> orElse r f s = f e s"
  by (auto simp: orElse_def dispatch_Err Err_orElse_def this_get_def view_Err_iff obj_get_Err_instance)

lemma map_result_Ok: "view (heap s) r = Some (OkV v) \<Longrightarrow> map_result r f s = bind (f v) ok s"
  by (auto simp: map_result_def dispatch_Ok Ok_map_def this_get_def view_Ok_iff obj_get_Ok_instance bind_def)

lemma map_result_Err: "view (heap s) r = Some (ErrV e) \<Longrightarrow> map_result r f s = (Inr r, s)"
  by (auto simp: map_result_def dispatch_Err Err_map_def view_Err_iff)

lemma mapErr_Ok: "view (heap s) r = Some (OkV v) \<Longrightarrow> mapErr r f s = (Inr r, s)"
  by (auto simp: mapErr_def dispatch_Ok Ok_mapErr_def view_Ok_iff)

lemma mapErr_Err: "view (heap s) r = Some (ErrV e) \<Longrightarrow> mapErr r f s = bind (f e) err s"
  by (auto simp: mapErr_def dispatch_Err Err_mapErr_def this_get_def view_Err_iff obj_get_Err_instance bind_def)


lemma view_new_Ok:
  "view (h @ [Ok_instance v]) (VRef (length h)) = Some (OkV v)"
  by (simp add: view_Ok_iff)

lemma view_new_Err:
  "view (h @ [Err_instance e]) (VRef (length h)) = Some (ErrV e)"
  by (simp add: view_Err_iff)

lemma bind_ok: "bind (ok v) k s = k (VRef (length (heap s))) (snd (ok v s))"
  by (simp add: bind_def ok_run)

lemma bind_err: "bind (err e) k s = k (VRef (length (heap s))) (snd (err e s))"
  by (simp add: bind_def err_run)

lemma calls_logged:
  "calls (snd (logged name f v t)) = calls t @ [(name, v)]"
  by (simp add: logged_def calls_def split: prod.splits)

text \<open>
  C2. For every \<^verbatim>\<open>Result\<close> \<open>r\<close> and every pair of handlers,
  \<^verbatim>\<open>r.match({ok, err})\<close> is one call of one handler: of \<^verbatim>\<open>ok\<close> on the stored value
  when \<open>r\<close> is an \<^verbatim>\<open>Ok\<close>, of \<^verbatim>\<open>err\<close> on the stored error when \<open>r\<close> is an
  \<^verbatim>\<open>Err\<close>. The outcome and the state are those of that call, unmodified. With handlers
  that record their invocations, the record grows by exactly the entry of the handler of
  the receiver's variant: the other handler is not invoked.
\<close>

theorem match_invokes_exactly_one:
  "(view (heap s) r = Some (OkV v) \<longrightarrow> match r hs s = ok_handler hs v s) \<and>
   (view (heap s) r = Some (ErrV e) \<longrightarrow> match r hs s = err_handler hs e s) \<and>
   (view (heap t) r = Some (OkV v) \<longrightarrow>
      calls (snd (match r \<lparr>ok_handler = logged ''ok'' f, err_handler = logged ''err'' g\<rparr> t))
        = calls t @ [(''ok'', v)]) \<and>
   (view (heap t) r = Some (ErrV e) \<longrightarrow>
      calls (snd (match r \<lparr>ok_handler = logged ''ok'' f, err_handler = logged ''err'' g\<rparr> t))
        = calls t @ [(''err'', e)])"
  by (simp add: match_Ok match_Err calls_logged)

text \<open>
  C3. For every value \<open>v\<close> and function \<open>f\<close>,
  \<^verbatim>\<open>ok(v).andThen(f)\<close> is the call \<open>f(v)\<close>, made in the state that holds the new
  \<^verbatim>\<open>Ok\<close>: what \<open>f\<close> returns is returned as it is and the state is left as \<open>f\<close>
  left it. For every error \<open>e\<close>, \<^verbatim>\<open>err(e).andThen(f)\<close> returns the receiver, the
  reference that \<^verbatim>\<open>err(e)\<close> returned, in an unchanged state, and \<open>f\<close> is not
  invoked. Both hold for any \<^verbatim>\<open>Ok\<close> or \<^verbatim>\<open>Err\<close> receiver in any state.
\<close>

theorem andThen_chains_or_passes:
  "bind (ok v) (\<lambda>r. andThen r f) s = f v (snd (ok v s)) \<and>
   bind (err e) (\<lambda>r. andThen r f) s = err e s \<and>
   (view (heap s) r = Some (OkV v) \<longrightarrow> andThen r f s = f v s) \<and>
   (view (heap s) r = Some (ErrV e) \<longrightarrow> andThen r f s = (Inr r, s)) \<and>
   (view (heap t) r = Some (ErrV e) \<longrightarrow> calls (snd (andThen r (logged ''fn'' g) t)) = calls t)"
  by (simp add: bind_ok bind_err andThen_Ok andThen_Err ok_run err_run view_new_Ok view_new_Err)

text \<open>
  C4. For every error \<open>e\<close> and function \<open>f\<close>,
  \<^verbatim>\<open>err(e).orElse(f)\<close> is the call \<open>f(e)\<close>, made in the state that holds the new
  \<^verbatim>\<open>Err\<close>: what \<open>f\<close> returns is returned as it is. For every value \<open>v\<close>,
  \<^verbatim>\<open>ok(v).orElse(f)\<close> returns the receiver, the reference that \<^verbatim>\<open>ok(v)\<close>
  returned, in an unchanged state, and \<open>f\<close> is not invoked. Both hold for any
  \<^verbatim>\<open>Ok\<close> or \<^verbatim>\<open>Err\<close> receiver in any state.
\<close>

theorem orElse_chains_or_passes:
  "bind (err e) (\<lambda>r. orElse r f) s = f e (snd (err e s)) \<and>
   bind (ok v) (\<lambda>r. orElse r f) s = ok v s \<and>
   (view (heap s) r = Some (ErrV e) \<longrightarrow> orElse r f s = f e s) \<and>
   (view (heap s) r = Some (OkV v) \<longrightarrow> orElse r f s = (Inr r, s)) \<and>
   (view (heap t) r = Some (OkV v) \<longrightarrow> calls (snd (orElse r (logged ''fn'' g) t)) = calls t)"
  by (simp add: bind_ok bind_err orElse_Ok orElse_Err ok_run err_run view_new_Ok view_new_Err)


lemma bind_Inr: "m s = (Inr x, s') \<Longrightarrow> bind m k s = k x s'"
  by (simp add: bind_def)

lemma view_length: "view h r = Some w \<Longrightarrow> \<exists>a. r = VRef a \<and> a < length h"
  by (cases w) (auto simp: view_Ok_iff view_Err_iff)

text \<open>
  C5. On an \<^verbatim>\<open>Ok\<close> holding \<open>v\<close>, \<^verbatim>\<open>map(f)\<close> calls
  \<open>f(v)\<close> and, when that returns \<open>x\<close>, returns a reference to an \<^verbatim>\<open>Ok\<close> holding
  \<open>x\<close> that is appended to the store \<open>f\<close> left: the reference names no object of
  that store, and it differs from the receiver when \<open>f\<close> has not shrunk the store. On an
  \<^verbatim>\<open>Err\<close>, \<^verbatim>\<open>map(f)\<close> returns the receiver in an unchanged state and does not
  invoke \<open>f\<close>. \<^verbatim>\<open>mapErr\<close> is the mirror image: a new \<^verbatim>\<open>Err\<close> holding
  \<open>f(e)\<close> on an \<^verbatim>\<open>Err\<close>, the receiver on an \<^verbatim>\<open>Ok\<close>.
\<close>

theorem map_and_mapErr:
  "(view (heap s) r = Some (OkV v) \<and> f v s = (Inr x, s') \<longrightarrow>
      map_result r f s = (Inr (VRef (length (heap s'))), s'\<lparr>heap := heap s' @ [Ok_instance x]\<rparr>) \<and>
      view (heap s') (VRef (length (heap s'))) = None \<and>
      (length (heap s) \<le> length (heap s') \<longrightarrow> VRef (length (heap s')) \<noteq> r)) \<and>
   (view (heap s) r = Some (ErrV e) \<longrightarrow> map_result r f s = (Inr r, s)) \<and>
   (view (heap s) r = Some (ErrV e) \<and> f e s = (Inr x, s') \<longrightarrow>
      mapErr r f s = (Inr (VRef (length (heap s'))), s'\<lparr>heap := heap s' @ [Err_instance x]\<rparr>) \<and>
      view (heap s') (VRef (length (heap s'))) = None \<and>
      (length (heap s) \<le> length (heap s') \<longrightarrow> VRef (length (heap s')) \<noteq> r)) \<and>
   (view (heap s) r = Some (OkV v) \<longrightarrow> mapErr r f s = (Inr r, s)) \<and>
   (view (heap t) r = Some (ErrV e) \<longrightarrow> calls (snd (map_result r (logged ''fn'' g) t)) = calls t) \<and>
   (view (heap t) r = Some (OkV v) \<longrightarrow> calls (snd (mapErr r (logged ''fn'' g) t)) = calls t) \<and>
   bind (ok v) (\<lambda>r. map_result r f) s = bind (f v) ok (snd (ok v s)) \<and>
   bind (err e) (\<lambda>r. map_result r f) s = err e s \<and>
   bind (err e) (\<lambda>r. mapErr r f) s = bind (f e) err (snd (err e s)) \<and>
   bind (ok v) (\<lambda>r. mapErr r f) s = ok v s"
proof -
  have fresh: "view h (VRef (length h)) = None" for h
    by (simp add: view_def)
  have differs: "view h r = Some w \<Longrightarrow> length h \<le> n \<Longrightarrow> VRef n \<noteq> r" for h w n
    by (auto dest: view_length)
  have okmap: "map_result r f s = (Inr (VRef (length (heap s'))), s'\<lparr>heap := heap s' @ [Ok_instance x]\<rparr>)"
    if "view (heap s) r = Some (OkV v)" "f v s = (Inr x, s')"
    using that by (simp add: map_result_Ok bind_Inr ok_run)
  have errmap: "mapErr r f s = (Inr (VRef (length (heap s'))), s'\<lparr>heap := heap s' @ [Err_instance x]\<rparr>)"
    if "view (heap s) r = Some (ErrV e)" "f e s = (Inr x, s')"
    using that by (simp add: mapErr_Err bind_Inr err_run)
  have chain:
    "bind (ok v) (\<lambda>r. map_result r f) s = bind (f v) ok (snd (ok v s))"
    "bind (err e) (\<lambda>r. map_result r f) s = err e s"
    "bind (err e) (\<lambda>r. mapErr r f) s = bind (f e) err (snd (err e s))"
    "bind (ok v) (\<lambda>r. mapErr r f) s = ok v s"
    by (simp_all add: bind_ok bind_err map_result_Ok map_result_Err mapErr_Ok mapErr_Err
        ok_run err_run view_new_Ok view_new_Err)
  show ?thesis
    using okmap errmap chain fresh differs [of "heap s"]
    by (simp add: map_result_Err mapErr_Ok)
qed

text \<open>
  C6. \<^verbatim>\<open>andThen\<close> satisfies the monad laws on the success channel.
  Left identity: \<^verbatim>\<open>ok(v).andThen(f)\<close> is \<open>f(v)\<close>. Right identity: for every
  \<^verbatim>\<open>Result\<close> \<open>r\<close>, \<^verbatim>\<open>r.andThen(ok)\<close> returns a \<^verbatim>\<open>Result\<close> of the same
  variant and payload as \<open>r\<close>. Associativity: for every receiver \<open>r\<close> and functions
  \<open>f\<close>, \<open>g\<close>, \<^verbatim>\<open>r.andThen(f).andThen(g)\<close> and
  \<^verbatim>\<open>r.andThen(x => f(x).andThen(g))\<close> have the same outcome and leave the same
  state.
\<close>

theorem andThen_monad_laws:
  "bind (ok v) (\<lambda>r. andThen r f) s = f v (snd (ok v s)) \<and>
   (view (heap s) r = Some w \<longrightarrow>
      (\<exists>r' s'. andThen r ok s = (Inr r', s') \<and> view (heap s') r' = Some w)) \<and>
   bind (andThen r f) (\<lambda>r'. andThen r' g) s = andThen r (\<lambda>x. bind (f x) (\<lambda>r'. andThen r' g)) s"
proof -
  have left: "bind (ok v) (\<lambda>r. andThen r f) s = f v (snd (ok v s))"
    by (simp add: bind_ok andThen_Ok ok_run view_new_Ok)
  have right: "\<exists>r' s'. andThen r ok s = (Inr r', s') \<and> view (heap s') r' = Some w"
    if "view (heap s) r = Some w"
  proof (cases w)
    case (OkV x)
    with that show ?thesis by (simp add: andThen_Ok ok_run view_new_Ok)
  next
    case (ErrV x)
    with that show ?thesis by (simp add: andThen_Err)
  qed
  have assoc: "bind (andThen r f) (\<lambda>r'. andThen r' g) s
      = andThen r (\<lambda>x. bind (f x) (\<lambda>r'. andThen r' g)) s"
    by (simp add: andThen_def dispatch_def bind_def Ok_andThen_def Err_andThen_def
        split: val.splits cls.splits)
  from left right assoc show ?thesis by blast
qed

text \<open>
  C8. \<^verbatim>\<open>new Ok(v, marker)\<close> and \<^verbatim>\<open>new Err(e, marker)\<close> with a marker
  other than the module's own throw the \<^verbatim>\<open>Error\<close> of \<^verbatim>\<open>assertPrivateConstructor\<close>:
  the throw comes before a payload is stored, leaves every \<^verbatim>\<open>Result\<close> of the store
  as it was, makes no new one, and leaves the caller's world alone. The factories
  \<^verbatim>\<open>ok\<close> and \<^verbatim>\<open>err\<close> return a reference for every argument.
\<close>

theorem constructors_guarded:
  "marker \<noteq> constructorMarker \<Longrightarrow>
     fst (Ok_constructor v marker s)
       = Inl (Error ''This function can only be called by Result internals.'') \<and>
     fst (Err_constructor e marker s)
       = Inl (Error ''This function can only be called by Result internals.'') \<and>
     view (heap (snd (Ok_constructor v marker s))) r = view (heap s) r \<and>
     view (heap (snd (Err_constructor e marker s))) r = view (heap s) r \<and>
     world (snd (Ok_constructor v marker s)) = world s \<and>
     world (snd (Err_constructor e marker s)) = world s \<and>
     (\<exists>r s'. ok v s = (Inr r, s')) \<and> (\<exists>r s'. err e s = (Inr r, s'))"
  by (cases r)
    (simp_all add: Ok_constructor_def Err_constructor_def alloc_def assertPrivateConstructor_def
      strict_not_equal_def ok_run err_run view_def init_field_def new_object_def nth_append
      Ok_instance_def Err_instance_def)

text \<open>
  C9. Every operation returns on every \<^verbatim>\<open>Result\<close> receiver, provided the one call
  it makes to a supplied function returns. On an \<^verbatim>\<open>Ok\<close> holding \<open>v\<close>,
  \<^verbatim>\<open>match\<close>, \<^verbatim>\<open>andThen\<close> and \<^verbatim>\<open>map\<close> return when the call of the \<^verbatim>\<open>ok\<close>
  handler, or of the function, on \<open>v\<close> in the current state does not throw, whatever the
  \<^verbatim>\<open>err\<close> handler is; \<^verbatim>\<open>orElse\<close> and \<^verbatim>\<open>mapErr\<close> return for every supplied
  function, one that always throws included. On an \<^verbatim>\<open>Err\<close> holding \<open>e\<close> the roles
  are exchanged: \<^verbatim>\<open>match\<close>, \<^verbatim>\<open>orElse\<close> and \<^verbatim>\<open>mapErr\<close> return when the call on
  \<open>e\<close> does not throw, \<^verbatim>\<open>andThen\<close> and \<^verbatim>\<open>map\<close> return for every supplied
  function.
\<close>

theorem operations_total:
  "(view (heap s) r = Some (OkV v) \<longrightarrow>
      (\<not> isl (fst (f v s)) \<longrightarrow>
         (\<exists>x s'. match r \<lparr>ok_handler = f, err_handler = g\<rparr> s = (Inr x, s')) \<and>
         (\<exists>x s'. andThen r f s = (Inr x, s')) \<and>
         (\<exists>x s'. map_result r f s = (Inr x, s'))) \<and>
      (\<exists>x s'. orElse r h s = (Inr x, s')) \<and>
      (\<exists>x s'. mapErr r h s = (Inr x, s'))) \<and>
   (view (heap s) r = Some (ErrV e) \<longrightarrow>
      (\<not> isl (fst (g e s)) \<longrightarrow>
         (\<exists>x s'. match r \<lparr>ok_handler = f, err_handler = g\<rparr> s = (Inr x, s')) \<and>
         (\<exists>x s'. orElse r g s = (Inr x, s')) \<and>
         (\<exists>x s'. mapErr r g s = (Inr x, s'))) \<and>
      (\<exists>x s'. andThen r h s = (Inr x, s')) \<and>
      (\<exists>x s'. map_result r h s = (Inr x, s')))"
proof -
  have ret: "\<exists>x s'. k u s = (Inr x, s')" if "\<not> isl (fst (k u s))" for k :: "'a fn" and u
    using that by (cases "k u s"; cases "fst (k u s)") auto
  have wrap_ok: "\<exists>x s'. bind (k u) ok s = (Inr x, s')"
    if "\<not> isl (fst (k u s))" for k :: "'a fn" and u
    using that ret [of k u] by (auto simp: bind_def ok_run)
  have wrap_err: "\<exists>x s'. bind (k u) err s = (Inr x, s')"
    if "\<not> isl (fst (k u s))" for k :: "'a fn" and u
    using that ret [of k u] by (auto simp: bind_def err_run)
  have on_Ok:
    "(\<exists>x s'. match r \<lparr>ok_handler = f, err_handler = g\<rparr> s = (Inr x, s')) \<and>
     (\<exists>x s'. andThen r f s = (Inr x, s')) \<and>
     (\<exists>x s'. map_result r f s = (Inr x, s'))"
    if "view (heap s) r = Some (OkV v)" "\<not> isl (fst (f v s))"
    using that ret [of f v] wrap_ok [of f v]
    by (simp add: match_Ok andThen_Ok map_result_Ok)
  have pass_Ok:
    "(\<exists>x s'. orElse r h s = (Inr x, s')) \<and> (\<exists>x s'. mapErr r h s = (Inr x, s'))"
    if "view (heap s) r = Some (OkV v)"
    using that by (simp add: orElse_Ok mapErr_Ok)
  have on_Err:
    "(\<exists>x s'. match r \<lparr>ok_handler = f, err_handler = g\<rparr> s = (Inr x, s')) \<and>
     (\<exists>x s'. orElse r g s = (Inr x, s')) \<and>
     (\<exists>x s'. mapErr r g s = (Inr x, s'))"
    if "view (heap s) r = Some (ErrV e)" "\<not> isl (fst (g e s))"
    using that ret [of g e] wrap_err [of g e]
    by (simp add: match_Err orElse_Err mapErr_Err)
  have pass_Err:
    "(\<exists>x s'. andThen r h s = (Inr x, s')) \<and> (\<exists>x s'. map_result r h s = (Inr x, s'))"
    if "view (heap s) r = Some (ErrV e)"
    using that by (simp add: andThen_Err map_result_Err)
  from on_Ok pass_Ok on_Err pass_Err show ?thesis by blast
qed


section \<open>Frozen objects stay as they are\<close>

lemma frozen_obj_lookup:
  "frozen_obj ob \<Longrightarrow> map_of (props ob) k = Some p \<Longrightarrow> \<not> writable p \<and> \<not> configurable p"
  by (auto simp: frozen_obj_def list_all_iff dest!: map_of_SomeD)

lemma frozen_obj_set: "frozen_obj ob \<Longrightarrow> obj_set strict k v ob = Inr ob' \<Longrightarrow> ob' = ob"
proof -
  assume fr: "frozen_obj ob" and run: "obj_set strict k v ob = Inr ob'"
  from fr have ne: "\<not> extensible ob" by (simp add: frozen_obj_def)
  show ?thesis
  proof (cases "map_of (props ob) k")
    case None
    with run ne show ?thesis by (simp add: obj_set_def split: if_splits)
  next
    case (Some p)
    with fr have "\<not> writable p" by (simp add: frozen_obj_lookup)
    with run Some show ?thesis by (simp add: obj_set_def split: if_splits)
  qed
qed

lemma frozen_obj_delete: "frozen_obj ob \<Longrightarrow> obj_delete strict k ob = Inr ob' \<Longrightarrow> ob' = ob"
proof -
  assume fr: "frozen_obj ob" and run: "obj_delete strict k ob = Inr ob'"
  show ?thesis
  proof (cases "map_of (props ob) k")
    case None
    with run show ?thesis by (simp add: obj_delete_def)
  next
    case (Some p)
    with fr have "\<not> configurable p" by (simp add: frozen_obj_lookup)
    with run Some show ?thesis by (simp add: obj_delete_def split: if_splits)
  qed
qed

lemma frozen_obj_define: "frozen_obj ob \<Longrightarrow> obj_define k d ob = Inr ob' \<Longrightarrow> ob' = ob"
proof -
  assume fr: "frozen_obj ob" and run: "obj_define k d ob = Inr ob'"
  from fr have ne: "\<not> extensible ob" by (simp add: frozen_obj_def)
  show ?thesis
  proof (cases "map_of (props ob) k")
    case None
    with run ne show ?thesis by (simp add: obj_define_def split: if_splits)
  next
    case (Some p)
    with fr have "\<not> writable p" "\<not> configurable p" by (simp_all add: frozen_obj_lookup)
    with run Some show ?thesis by (simp add: obj_define_def split: if_splits)
  qed
qed

lemma frozen_obj_setPrototypeOf:
  "frozen_obj ob \<Longrightarrow> obj_setPrototypeOf c ob = Inr ob' \<Longrightarrow> ob' = ob"
  by (auto simp: obj_setPrototypeOf_def frozen_obj_def split: if_splits)

lemma frozen_obj_preventExtensions: "frozen_obj ob \<Longrightarrow> obj_preventExtensions ob = ob"
  by (simp add: obj_preventExtensions_def frozen_obj_def)

lemma frozen_obj_seal: "frozen_obj ob \<Longrightarrow> obj_seal ob = ob"
proof -
  assume fr: "frozen_obj ob"
  then have "map (\<lambda>(k, p). (k, p\<lparr>configurable := False\<rparr>)) (props ob) = props ob"
    by (intro map_idI) (auto simp: frozen_obj_def list_all_iff)
  with fr show ?thesis by (simp add: obj_seal_def frozen_obj_def)
qed

lemma frozen_obj_freeze: "frozen_obj ob \<Longrightarrow> obj_freeze ob = ob"
proof -
  assume fr: "frozen_obj ob"
  then have "map (\<lambda>(k, p). (k, p\<lparr>writable := False, configurable := False\<rparr>)) (props ob) = props ob"
    by (intro map_idI) (auto simp: frozen_obj_def list_all_iff)
  with fr show ?thesis by (simp add: obj_freeze_def frozen_obj_def)
qed

lemma on_object_keeps:
  assumes "\<And>ob ob'. frozen_obj ob \<Longrightarrow> f ob = Inr ob' \<Longrightarrow> ob' = ob"
  shows "keeps_frozen h (snd (on_object a f h))"
  unfolding keeps_frozen_def on_object_def
  using assms by (auto split: sum.splits simp: nth_list_update)

lemma perform_keeps: "keeps_frozen h (snd (perform x h))"
proof (cases x)
  case (Assign strict a k v)
  then show ?thesis by (simp add: on_object_keeps frozen_obj_set)
next
  case (Delete strict a k)
  then show ?thesis by (simp add: on_object_keeps frozen_obj_delete)
next
  case (DefineProperty a k d)
  then show ?thesis by (simp add: on_object_keeps frozen_obj_define)
next
  case (SetPrototypeOf a c)
  then show ?thesis by (simp add: on_object_keeps frozen_obj_setPrototypeOf)
next
  case (PreventExtensions a)
  then show ?thesis by (auto intro!: on_object_keeps simp: frozen_obj_preventExtensions)
next
  case (Seal a)
  then show ?thesis by (auto intro!: on_object_keeps simp: frozen_obj_seal)
next
  case (Freeze a)
  then show ?thesis by (auto intro!: on_object_keeps simp: frozen_obj_freeze)
qed

lemma keeps_frozen_refl: "keeps_frozen h h"
  by (simp add: keeps_frozen_def)

lemma keeps_frozen_trans: "keeps_frozen h h' \<Longrightarrow> keeps_frozen h' h'' \<Longrightarrow> keeps_frozen h h''"
  by (simp add: keeps_frozen_def)

lemma keeps_frozen_append: "keeps_frozen h (h @ h')"
  by (simp add: keeps_frozen_def nth_append)

lemma perform_all_keeps: "keeps_frozen h (perform_all xs h)"
proof (induction xs arbitrary: h)
  case Nil
  show ?case by (simp add: keeps_frozen_refl)
next
  case (Cons x xs)
  from perform_keeps Cons.IH show ?case
    by (simp add: keeps_frozen_trans [where h' = "snd (perform x h)"])
qed

lemma frozen_Ok_instance: "frozen_obj (Ok_instance v)"
  by (simp add: frozen_obj_def Ok_instance_def frozen_property_def)

lemma frozen_Err_instance: "frozen_obj (Err_instance e)"
  by (simp add: frozen_obj_def Err_instance_def frozen_property_def)

lemma keeps_frozen_object:
  "keeps_frozen h h' \<Longrightarrow> view h (VRef a) = Some w \<Longrightarrow> a < length h' \<and> h' ! a = h ! a"
  by (cases w) (auto simp: keeps_frozen_def view_Ok_iff view_Err_iff frozen_Ok_instance
      frozen_Err_instance)

lemma keeps_frozen_view: "keeps_frozen h h' \<Longrightarrow> view h r = Some w \<Longrightarrow> view h' r = Some w"
  by (cases w) (auto simp: keeps_frozen_def view_Ok_iff view_Err_iff frozen_Ok_instance
      frozen_Err_instance)

lemma ok_keeps: "keeps_frozen (heap s) (heap (snd (ok v s)))"
  by (simp add: ok_run keeps_frozen_append)

lemma err_keeps: "keeps_frozen (heap s) (heap (snd (err e s)))"
  by (simp add: err_run keeps_frozen_append)

lemma bind_keeps:
  assumes "keeps_frozen (heap s) (heap (snd (m s)))"
    and "\<And>x u. keeps_frozen (heap u) (heap (snd (k x u)))"
  shows "keeps_frozen (heap s) (heap (snd (bind m k s)))"
proof (cases "m s")
  case (Pair res u)
  with assms(1) have 1: "keeps_frozen (heap s) (heap u)" by simp
  show ?thesis
  proof (cases res)
    case (Inl e)
    with Pair 1 show ?thesis by (simp add: bind_def)
  next
    case (Inr x)
    with Pair 1 assms(2) [of u x] show ?thesis
      by (simp add: bind_def keeps_frozen_trans [where h' = "heap u"])
  qed
qed


lemma respects_frozenD: "respects_frozen f \<Longrightarrow> keeps_frozen (heap s) (heap (snd (f v s)))"
  by (simp add: respects_frozen_def)

lemma operations_keep_frozen:
  assumes r: "view (heap s) r = Some w"
    and f: "respects_frozen f" and g: "respects_frozen g"
  shows "keeps_frozen (heap s) (heap (snd (match r \<lparr>ok_handler = f, err_handler = g\<rparr> s)))"
    and "keeps_frozen (heap s) (heap (snd (andThen r f s)))"
    and "keeps_frozen (heap s) (heap (snd (orElse r f s)))"
    and "keeps_frozen (heap s) (heap (snd (map_result r f s)))"
    and "keeps_frozen (heap s) (heap (snd (mapErr r f s)))"
proof -
  have 1: "keeps_frozen (heap s) (heap (snd (bind (f v) ok s)))" for v
    by (rule bind_keeps) (simp_all add: respects_frozenD [OF f] ok_keeps)
  have 2: "keeps_frozen (heap s) (heap (snd (bind (f v) err s)))" for v
    by (rule bind_keeps) (simp_all add: respects_frozenD [OF f] err_keeps)
  show "keeps_frozen (heap s) (heap (snd (match r \<lparr>ok_handler = f, err_handler = g\<rparr> s)))"
    using r by (cases w)
      (simp_all add: match_Ok match_Err respects_frozenD [OF f] respects_frozenD [OF g])
  show "keeps_frozen (heap s) (heap (snd (andThen r f s)))"
    using r by (cases w)
      (simp_all add: andThen_Ok andThen_Err respects_frozenD [OF f] keeps_frozen_refl)
  show "keeps_frozen (heap s) (heap (snd (orElse r f s)))"
    using r by (cases w)
      (simp_all add: orElse_Ok orElse_Err respects_frozenD [OF f] keeps_frozen_refl)
  show "keeps_frozen (heap s) (heap (snd (map_result r f s)))"
    using r 1 by (cases w) (simp_all add: map_result_Ok map_result_Err keeps_frozen_refl)
  show "keeps_frozen (heap s) (heap (snd (mapErr r f s)))"
    using r 2 by (cases w) (simp_all add: mapErr_Ok mapErr_Err keeps_frozen_refl)
qed

lemma fresh_after:
  assumes "keeps_frozen h (heap u)"
  shows "view h (VRef (length (heap u))) = None"
proof (cases "view h (VRef (length (heap u)))")
  case None
  then show ?thesis .
next
  case (Some w)
  from keeps_frozen_object [OF assms Some] show ?thesis by simp
qed

lemma bind_ok_receiver_or_fresh:
  assumes "keeps_frozen (heap s) (heap (snd (m s)))"
  shows "receiver_or_fresh r s (bind m ok s)"
proof (cases "m s")
  case (Pair res u)
  with assms have "view (heap s) (VRef (length (heap u))) = None"
    by (simp add: fresh_after)
  with Pair show ?thesis
    by (cases res) (simp_all add: receiver_or_fresh_def bind_def ok_run view_new_Ok)
qed

lemma bind_err_receiver_or_fresh:
  assumes "keeps_frozen (heap s) (heap (snd (m s)))"
  shows "receiver_or_fresh r s (bind m err s)"
proof (cases "m s")
  case (Pair res u)
  with assms have "view (heap s) (VRef (length (heap u))) = None"
    by (simp add: fresh_after)
  with Pair show ?thesis
    by (cases res) (simp_all add: receiver_or_fresh_def bind_def err_run view_new_Err)
qed

text \<open>
  C7. Every \<^verbatim>\<open>Result\<close> instance is immutable after
  construction. Whatever is attempted on objects of the store (assigning to
  \<^verbatim>\<open>value\<close>, \<^verbatim>\<open>error\<close>, \<^verbatim>\<open>type\<close>, \<^verbatim>\<open>isOk\<close>, \<^verbatim>\<open>isErr\<close> or a new name,
  deleting, redefining, replacing the prototype), the instance is the same object
  afterwards, with the same fields and no new one. No operation changes the receiver,
  given supplied functions that change objects through such attempts only.
  \<^verbatim>\<open>map\<close> and \<^verbatim>\<open>mapErr\<close> return the receiver itself or an instance they have
  constructed; \<^verbatim>\<open>andThen\<close> and \<^verbatim>\<open>orElse\<close> return the receiver itself or the
  outcome of the supplied function as it is; \<^verbatim>\<open>match\<close> returns the outcome of the
  handler it has called.
\<close>

theorem instances_are_immutable:
  assumes r: "view (heap s) r = Some w"
    and f: "respects_frozen f" and g: "respects_frozen g"
  shows
    "(\<exists>a. r = VRef a \<and> a < length (perform_all xs (heap s)) \<and>
          perform_all xs (heap s) ! a = heap s ! a) \<and>
     view (perform_all xs (heap s)) r = Some w \<and>
     view (heap (snd (match r \<lparr>ok_handler = f, err_handler = g\<rparr> s))) r = Some w \<and>
     view (heap (snd (andThen r f s))) r = Some w \<and>
     view (heap (snd (orElse r f s))) r = Some w \<and>
     view (heap (snd (map_result r f s))) r = Some w \<and>
     view (heap (snd (mapErr r f s))) r = Some w \<and>
     (\<exists>x. match r \<lparr>ok_handler = f, err_handler = g\<rparr> s = f x s \<or>
          match r \<lparr>ok_handler = f, err_handler = g\<rparr> s = g x s) \<and>
     (andThen r f s = (Inr r, s) \<or> (\<exists>x. andThen r f s = f x s)) \<and>
     (orElse r f s = (Inr r, s) \<or> (\<exists>x. orElse r f s = f x s)) \<and>
     receiver_or_fresh r s (map_result r f s) \<and>
     receiver_or_fresh r s (mapErr r f s)"
proof -
  from r obtain a where a: "r = VRef a" by (auto dest: view_length)
  have attempts: "a < length (perform_all xs (heap s))" "perform_all xs (heap s) ! a = heap s ! a"
    using keeps_frozen_object [OF perform_all_keeps, of "heap s" a w xs] r a by simp_all
  have attempts_view: "view (perform_all xs (heap s)) r = Some w"
    using r by (rule keeps_frozen_view [OF perform_all_keeps])
  note keep = operations_keep_frozen [OF r f g, THEN keeps_frozen_view, OF r]
  have self: "receiver_or_fresh r s (Inr r, s)"
    by (simp add: receiver_or_fresh_def)
  have returns:
    "(\<exists>x. match r \<lparr>ok_handler = f, err_handler = g\<rparr> s = f x s \<or>
          match r \<lparr>ok_handler = f, err_handler = g\<rparr> s = g x s)"
    "andThen r f s = (Inr r, s) \<or> (\<exists>x. andThen r f s = f x s)"
    "orElse r f s = (Inr r, s) \<or> (\<exists>x. orElse r f s = f x s)"
    "receiver_or_fresh r s (map_result r f s)"
    "receiver_or_fresh r s (mapErr r f s)"
    using r self
    by (cases w; auto simp: match_Ok match_Err andThen_Ok andThen_Err orElse_Ok orElse_Err
        map_result_Ok map_result_Err mapErr_Ok mapErr_Err
        bind_ok_receiver_or_fresh bind_err_receiver_or_fresh respects_frozenD [OF f])+
  from a attempts attempts_view keep returns show ?thesis by blast
qed

lemma two_oks_eq:
  "two_oks = \<lparr>heap = [new_object ObjectProto, Ok_instance (VNum 2), Ok_instance (VNum 1)], world = ()\<rparr>"
  by (simp add: two_oks_def ok_run loaded_def module_heap_def alloc_def)

text \<open>
  The statement that every operation returns the receiver or an instance it has
  constructed fails for \<^verbatim>\<open>andThen\<close> and \<^verbatim>\<open>match\<close>: with \<^verbatim>\<open>const a = ok(2)\<close>
  and \<^verbatim>\<open>const b = ok(1)\<close>, \<^verbatim>\<open>b.andThen(_ => a)\<close> returns \<open>a\<close>, an instance older
  than the call and not the receiver, and \<^verbatim>\<open>b.match({ok: x => x, err: x => x})\<close>
  returns the number 1, which is no instance.
\<close>

theorem operation_returns_older_instance:
  "view (heap two_oks) (VRef 2) = Some (OkV (VNum 1)) \<and>
   view (heap two_oks) (VRef 1) = Some (OkV (VNum 2)) \<and>
   andThen (VRef 2) (const_fn (VRef 1)) two_oks = (Inr (VRef 1), two_oks) \<and>
   \<not> receiver_or_fresh (VRef 2) two_oks (andThen (VRef 2) (const_fn (VRef 1)) two_oks) \<and>
   match (VRef 2) \<lparr>ok_handler = id_fn, err_handler = id_fn\<rparr> two_oks = (Inr (VNum 1), two_oks) \<and>
   \<not> receiver_or_fresh (VRef 2) two_oks
       (match (VRef 2) \<lparr>ok_handler = id_fn, err_handler = id_fn\<rparr> two_oks)"
proof -
  have v2: "view (heap two_oks) (VRef 2) = Some (OkV (VNum 1))"
    and v1: "view (heap two_oks) (VRef 1) = Some (OkV (VNum 2))"
    by (simp_all add: two_oks_eq view_Ok_iff)
  have n: "view (heap two_oks) (VNum 1) = None"
    by (simp add: view_def)
  from v2 v1 n show ?thesis
    by (simp add: andThen_Ok match_Ok const_fn_def id_fn_def receiver_or_fresh_def)
qed


section \<open>Construction touches no other object\<close>

lemma on_object_after_alloc:
  "p < length h \<Longrightarrow>
   on_object p f (h @ [ob]) = (case on_object p f h of (res, h') \<Rightarrow> (res, h' @ [ob]))"
  by (simp add: on_object_def nth_append list_update_append split: sum.splits)

text \<open>
  C10. The freeze at construction is shallow. \<^verbatim>\<open>ok(v).value\<close> reads
  the argument \<open>v\<close> itself, so the same reference when \<open>v\<close> is one; \<^verbatim>\<open>match\<close>,
  \<^verbatim>\<open>andThen\<close> and \<^verbatim>\<open>map\<close> pass that same \<open>v\<close> to the supplied function; and
  construction leaves every object that existed before, the payload's among them, as it
  was, so that any change to such an object has the outcome it would have had before.
  The same holds for \<^verbatim>\<open>err(e).error\<close>, \<^verbatim>\<open>match\<close>, \<^verbatim>\<open>orElse\<close> and
  \<^verbatim>\<open>mapErr\<close>.
\<close>

theorem freeze_is_shallow:
  "fst (ok v s) = Inr (VRef (length (heap s))) \<and>
   get_prop (heap (snd (ok v s))) (VRef (length (heap s))) ''value'' = Inr v \<and>
   bind (ok v) (\<lambda>r. match r hs) s = ok_handler hs v (snd (ok v s)) \<and>
   bind (ok v) (\<lambda>r. andThen r f) s = f v (snd (ok v s)) \<and>
   bind (ok v) (\<lambda>r. map_result r f) s = bind (f v) ok (snd (ok v s)) \<and>
   fst (err e s) = Inr (VRef (length (heap s))) \<and>
   get_prop (heap (snd (err e s))) (VRef (length (heap s))) ''error'' = Inr e \<and>
   bind (err e) (\<lambda>r. match r hs) s = err_handler hs e (snd (err e s)) \<and>
   bind (err e) (\<lambda>r. orElse r f) s = f e (snd (err e s)) \<and>
   bind (err e) (\<lambda>r. mapErr r f) s = bind (f e) err (snd (err e s)) \<and>
   (p < length (heap s) \<longrightarrow>
      heap (snd (ok v s)) ! p = heap s ! p \<and>
      heap (snd (err e s)) ! p = heap s ! p \<and>
      on_object p change (heap (snd (ok v s)))
        = (case on_object p change (heap s) of (res, h') \<Rightarrow> (res, h' @ [Ok_instance v])) \<and>
      on_object p change (heap (snd (err e s)))
        = (case on_object p change (heap s) of (res, h') \<Rightarrow> (res, h' @ [Err_instance e])))"
proof -
  have stored:
    "get_prop (heap (snd (ok v s))) (VRef (length (heap s))) ''value'' = Inr v"
    "get_prop (heap (snd (err e s))) (VRef (length (heap s))) ''error'' = Inr e"
    by (simp_all add: ok_run err_run get_prop_def obj_get_Ok_instance obj_get_Err_instance)
  have passed:
    "bind (ok v) (\<lambda>r. match r hs) s = ok_handler hs v (snd (ok v s))"
    "bind (ok v) (\<lambda>r. andThen r f) s = f v (snd (ok v s))"
    "bind (ok v) (\<lambda>r. map_result r f) s = bind (f v) ok (snd (ok v s))"
    "bind (err e) (\<lambda>r. match r hs) s = err_handler hs e (snd (err e s))"
    "bind (err e) (\<lambda>r. orElse r f) s = f e (snd (err e s))"
    "bind (err e) (\<lambda>r. mapErr r f) s = bind (f e) err (snd (err e s))"
    by (simp_all add: bind_ok bind_err match_Ok match_Err andThen_Ok orElse_Err map_result_Ok
        mapErr_Err ok_run err_run view_new_Ok view_new_Err)
  have frame:
    "heap (snd (ok v s)) ! p = heap s ! p"
    "heap (snd (err e s)) ! p = heap s ! p"
    "on_object p change (heap (snd (ok v s)))
        = (case on_object p change (heap s) of (res, h') \<Rightarrow> (res, h' @ [Ok_instance v]))"
    "on_object p change (heap (snd (err e s)))
        = (case on_object p change (heap s) of (res, h') \<Rightarrow> (res, h' @ [Err_instance e]))"
    if "p < length (heap s)"
    using that by (simp_all add: ok_run err_run nth_append on_object_after_alloc)
  from stored passed frame show ?thesis
    by (simp add: ok_run err_run)
qed


section \<open>The operations on example inputs\<close>

lemma example_views:
  "view (heap ok_one) (VRef 1) = Some (OkV (VNum 1))"
  "view (heap err_one) (VRef 1) = Some (ErrV (VNum 1))"
  "view (heap ok_one_logging) (VRef 1) = Some (OkV (VNum 1))"
  "view (heap err_one_logging) (VRef 1) = Some (ErrV (VNum 1))"
  by (simp_all add: ok_one_def err_one_def ok_one_logging_def err_one_logging_def ok_run err_run
      loaded_def loaded_logging_def module_heap_def alloc_def view_Ok_iff view_Err_iff)

lemma example_calls: "calls ok_one_logging = []" "calls err_one_logging = []"
  by (simp_all add: calls_def ok_one_logging_def err_one_logging_def ok_run err_run
      loaded_logging_def)

lemma example_lengths: "length (heap ok_one) = 2" "length (heap err_one) = 2"
  by (simp_all add: ok_one_def err_one_def ok_run err_run loaded_def module_heap_def alloc_def)

theorem match_invokes_exactly_one_witness:
  "view (heap ok_one) (VRef 1) = Some (OkV (VNum 1)) \<and>
   view (heap err_one) (VRef 1) = Some (ErrV (VNum 1)) \<and>
   match (VRef 1) \<lparr>ok_handler = plus_one_fn, err_handler = const_fn VNull\<rparr> ok_one
     = (Inr (VNum 2), ok_one) \<and>
   match (VRef 1) \<lparr>ok_handler = plus_one_fn, err_handler = const_fn VNull\<rparr> err_one
     = (Inr VNull, err_one) \<and>
   calls (snd (match (VRef 1)
       \<lparr>ok_handler = logged ''ok'' plus_one_fn, err_handler = logged ''err'' (const_fn VNull)\<rparr>
       ok_one_logging)) = [(''ok'', VNum 1)] \<and>
   calls (snd (match (VRef 1)
       \<lparr>ok_handler = logged ''ok'' plus_one_fn, err_handler = logged ''err'' (const_fn VNull)\<rparr>
       err_one_logging)) = [(''err'', VNum 1)]"
  using
    match_invokes_exactly_one [where s = ok_one and t = ok_one_logging and r = "VRef 1"
      and v = "VNum 1" and hs = "\<lparr>ok_handler = plus_one_fn, err_handler = const_fn VNull\<rparr>"
      and f = plus_one_fn and g = "const_fn VNull"]
    match_invokes_exactly_one [where s = err_one and t = err_one_logging and r = "VRef 1"
      and e = "VNum 1" and hs = "\<lparr>ok_handler = plus_one_fn, err_handler = const_fn VNull\<rparr>"
      and f = plus_one_fn and g = "const_fn VNull"]
  by (simp add: example_views example_calls plus_one_fn_def plus_one_def const_fn_def del: One_nat_def)

theorem andThen_chains_or_passes_witness:
  "view (heap ok_one) (VRef 1) = Some (OkV (VNum 1)) \<and>
   view (heap err_one) (VRef 1) = Some (ErrV (VNum 1)) \<and>
   view (heap err_one_logging) (VRef 1) = Some (ErrV (VNum 1)) \<and>
   andThen (VRef 1) ok_plus_one ok_one
     = (Inr (VRef 2), ok_one\<lparr>heap := heap ok_one @ [Ok_instance (VNum 2)]\<rparr>) \<and>
   andThen (VRef 1) ok_plus_one err_one = (Inr (VRef 1), err_one) \<and>
   calls (snd (andThen (VRef 1) (logged ''fn'' ok_plus_one) err_one_logging)) = []"
  using
    andThen_chains_or_passes [where s = ok_one and r = "VRef 1" and v = "VNum 1"
      and f = ok_plus_one and t = err_one_logging and e = "VNum 1" and g = ok_plus_one]
    andThen_chains_or_passes [where s = err_one and r = "VRef 1" and e = "VNum 1"
      and f = ok_plus_one and t = err_one_logging and g = ok_plus_one]
  by (simp add: example_views example_calls example_lengths ok_plus_one_def plus_one_def ok_run del: One_nat_def)

theorem orElse_chains_or_passes_witness:
  "view (heap err_one) (VRef 1) = Some (ErrV (VNum 1)) \<and>
   view (heap ok_one) (VRef 1) = Some (OkV (VNum 1)) \<and>
   view (heap ok_one_logging) (VRef 1) = Some (OkV (VNum 1)) \<and>
   orElse (VRef 1) ok_plus_one err_one
     = (Inr (VRef 2), err_one\<lparr>heap := heap err_one @ [Ok_instance (VNum 2)]\<rparr>) \<and>
   orElse (VRef 1) ok_plus_one ok_one = (Inr (VRef 1), ok_one) \<and>
   calls (snd (orElse (VRef 1) (logged ''fn'' ok_plus_one) ok_one_logging)) = []"
  using
    orElse_chains_or_passes [where s = err_one and r = "VRef 1" and e = "VNum 1"
      and f = ok_plus_one and t = ok_one_logging and v = "VNum 1" and g = ok_plus_one]
    orElse_chains_or_passes [where s = ok_one and r = "VRef 1" and v = "VNum 1"
      and f = ok_plus_one and t = ok_one_logging and g = ok_plus_one]
  by (simp add: example_views example_calls example_lengths ok_plus_one_def plus_one_def ok_run del: One_nat_def)

theorem map_and_mapErr_witness:
  "view (heap ok_one) (VRef 1) = Some (OkV (VNum 1)) \<and>
   view (heap err_one) (VRef 1) = Some (ErrV (VNum 1)) \<and>
   view (heap ok_one_logging) (VRef 1) = Some (OkV (VNum 1)) \<and>
   view (heap err_one_logging) (VRef 1) = Some (ErrV (VNum 1)) \<and>
   plus_one_fn (VNum 1) ok_one = (Inr (VNum 2), ok_one) \<and>
   plus_one_fn (VNum 1) err_one = (Inr (VNum 2), err_one) \<and>
   length (heap ok_one) \<le> length (heap ok_one) \<and>
   length (heap err_one) \<le> length (heap err_one) \<and>
   map_result (VRef 1) plus_one_fn ok_one
     = (Inr (VRef 2), ok_one\<lparr>heap := heap ok_one @ [Ok_instance (VNum 2)]\<rparr>) \<and>
   map_result (VRef 1) plus_one_fn err_one = (Inr (VRef 1), err_one) \<and>
   mapErr (VRef 1) plus_one_fn err_one
     = (Inr (VRef 2), err_one\<lparr>heap := heap err_one @ [Err_instance (VNum 2)]\<rparr>) \<and>
   mapErr (VRef 1) plus_one_fn ok_one = (Inr (VRef 1), ok_one) \<and>
   VRef 2 \<noteq> VRef 1 \<and>
   calls (snd (map_result (VRef 1) (logged ''fn'' plus_one_fn) err_one_logging)) = [] \<and>
   calls (snd (mapErr (VRef 1) (logged ''fn'' plus_one_fn) ok_one_logging)) = []"
  using
    map_and_mapErr [where s = ok_one and r = "VRef 1" and v = "VNum 1" and f = plus_one_fn
      and x = "VNum 2" and s' = ok_one and t = ok_one_logging and g = plus_one_fn]
    map_and_mapErr [where s = err_one and r = "VRef 1" and e = "VNum 1" and f = plus_one_fn
      and x = "VNum 2" and s' = err_one and t = err_one_logging and g = plus_one_fn]
  by (simp add: example_views example_calls example_lengths plus_one_fn_def plus_one_def del: One_nat_def)

theorem andThen_monad_laws_witness:
  "view (heap ok_one) (VRef 1) = Some (OkV (VNum 1)) \<and>
   view (heap err_one) (VRef 1) = Some (ErrV (VNum 1)) \<and>
   (\<exists>r' s'. andThen (VRef 1) ok ok_one = (Inr r', s') \<and> view (heap s') r' = Some (OkV (VNum 1))) \<and>
   (\<exists>r' s'. andThen (VRef 1) ok err_one = (Inr r', s') \<and> view (heap s') r' = Some (ErrV (VNum 1)))"
  using
    andThen_monad_laws [where s = ok_one and r = "VRef 1" and w = "OkV (VNum 1)"]
    andThen_monad_laws [where s = err_one and r = "VRef 1" and w = "ErrV (VNum 1)"]
  by (simp add: example_views del: One_nat_def)

theorem constructors_guarded_witness:
  "VUndefined \<noteq> constructorMarker \<and>
   fst (Ok_constructor (VNum 1) VUndefined ok_one)
     = Inl (Error ''This function can only be called by Result internals.'') \<and>
   fst (Err_constructor (VNum 1) VUndefined ok_one)
     = Inl (Error ''This function can only be called by Result internals.'') \<and>
   view (heap (snd (Ok_constructor (VNum 1) VUndefined ok_one))) (VRef 2) = None \<and>
   view (heap (snd (Err_constructor (VNum 1) VUndefined ok_one))) (VRef 2) = None \<and>
   view (heap (snd (Ok_constructor (VNum 1) VUndefined ok_one))) (VRef 1) = Some (OkV (VNum 1))"
proof -
  have m: "VUndefined \<noteq> constructorMarker"
    by (simp add: constructorMarker_def)
  have before: "view (heap ok_one) (VRef 2) = None"
    by (simp add: view_def example_lengths)
  from m before
    constructors_guarded [OF m, where s = ok_one and v = "VNum 1" and e = "VNum 1" and r = "VRef 2"]
    constructors_guarded [OF m, where s = ok_one and v = "VNum 1" and e = "VNum 1" and r = "VRef 1"]
  show ?thesis by (simp add: example_views del: One_nat_def)
qed

lemma example_calls_made:
  "\<not> isl (fst (picky (VNum 1) ok_one))" "\<not> isl (fst (picky (VNum 1) err_one))"
  "isl (fst (picky (VNum 0) ok_one))" "isl (fst (flunk (VNum 1) ok_one))"
  by (simp_all add: picky_def flunk_def ok_run)

theorem operations_total_witness:
  "view (heap ok_one) (VRef 1) = Some (OkV (VNum 1)) \<and>
   view (heap err_one) (VRef 1) = Some (ErrV (VNum 1)) \<and>
   \<not> isl (fst (picky (VNum 1) ok_one)) \<and>
   \<not> isl (fst (picky (VNum 1) err_one)) \<and>
   isl (fst (picky (VNum 0) ok_one)) \<and>
   isl (fst (flunk (VNum 1) ok_one)) \<and>
   (\<exists>x s'. match (VRef 1) \<lparr>ok_handler = picky, err_handler = flunk\<rparr> ok_one = (Inr x, s')) \<and>
   (\<exists>x s'. andThen (VRef 1) picky ok_one = (Inr x, s')) \<and>
   (\<exists>x s'. map_result (VRef 1) picky ok_one = (Inr x, s')) \<and>
   orElse (VRef 1) flunk ok_one = (Inr (VRef 1), ok_one) \<and>
   mapErr (VRef 1) flunk ok_one = (Inr (VRef 1), ok_one) \<and>
   (\<exists>x s'. match (VRef 1) \<lparr>ok_handler = flunk, err_handler = picky\<rparr> err_one = (Inr x, s')) \<and>
   (\<exists>x s'. orElse (VRef 1) picky err_one = (Inr x, s')) \<and>
   (\<exists>x s'. mapErr (VRef 1) picky err_one = (Inr x, s')) \<and>
   andThen (VRef 1) flunk err_one = (Inr (VRef 1), err_one) \<and>
   map_result (VRef 1) flunk err_one = (Inr (VRef 1), err_one)"
proof -
  have passed:
    "orElse (VRef 1) flunk ok_one = (Inr (VRef 1), ok_one)"
    "mapErr (VRef 1) flunk ok_one = (Inr (VRef 1), ok_one)"
    "andThen (VRef 1) flunk err_one = (Inr (VRef 1), err_one)"
    "map_result (VRef 1) flunk err_one = (Inr (VRef 1), err_one)"
    by (simp_all add: orElse_Ok [OF example_views(1)] mapErr_Ok [OF example_views(1)]
        andThen_Err [OF example_views(2)] map_result_Err [OF example_views(2)]
        del: One_nat_def)
  from passed example_calls_made
    operations_total [where s = ok_one and r = "VRef 1" and v = "VNum 1" and f = picky
      and g = flunk and h = flunk]
    operations_total [where s = err_one and r = "VRef 1" and e = "VNum 1" and f = flunk
      and g = picky and h = flunk]
  show ?thesis
    by (simp add: example_views del: One_nat_def)
qed


lemma respects_frozen_examples:
  "respects_frozen plus_one_fn" "respects_frozen (const_fn x)" "respects_frozen ok_plus_one"
  by (simp_all add: respects_frozen_def plus_one_fn_def const_fn_def ok_plus_one_def
      keeps_frozen_refl ok_keeps)

lemma ok_one_heap: "heap ok_one = [new_object ObjectProto, Ok_instance (VNum 1)]"
  by (simp add: ok_one_def ok_run loaded_def module_heap_def alloc_def)

theorem instances_are_immutable_witness:
  "view (heap ok_one) (VRef 1) = Some (OkV (VNum 1)) \<and>
   respects_frozen (ok_plus_one :: unit fn) \<and>
   respects_frozen (const_fn VNull :: unit fn) \<and>
   perform_all tampering (heap ok_one) ! 1 = heap ok_one ! 1 \<and>
   view (perform_all tampering (heap ok_one)) (VRef 1) = Some (OkV (VNum 1)) \<and>
   view (heap (snd (match (VRef 1) \<lparr>ok_handler = ok_plus_one, err_handler = const_fn VNull\<rparr>
     ok_one))) (VRef 1) = Some (OkV (VNum 1)) \<and>
   view (heap (snd (andThen (VRef 1) ok_plus_one ok_one))) (VRef 1) = Some (OkV (VNum 1)) \<and>
   view (heap (snd (orElse (VRef 1) ok_plus_one ok_one))) (VRef 1) = Some (OkV (VNum 1)) \<and>
   view (heap (snd (map_result (VRef 1) ok_plus_one ok_one))) (VRef 1) = Some (OkV (VNum 1)) \<and>
   view (heap (snd (mapErr (VRef 1) ok_plus_one ok_one))) (VRef 1) = Some (OkV (VNum 1)) \<and>
   receiver_or_fresh (VRef 1) ok_one (map_result (VRef 1) ok_plus_one ok_one) \<and>
   receiver_or_fresh (VRef 1) ok_one (mapErr (VRef 1) ok_plus_one ok_one) \<and>
   perform (Assign True 1 ''value'' (VNum 9)) (heap ok_one)
     = (Inl (TypeError ''Cannot assign to read only property''), heap ok_one) \<and>
   perform (Assign True 1 ''extra'' (VNum 0)) (heap ok_one)
     = (Inl (TypeError ''Cannot add property, object is not extensible''), heap ok_one)"
proof -
  have tried:
    "perform (Assign True 1 ''value'' (VNum 9)) (heap ok_one)
       = (Inl (TypeError ''Cannot assign to read only property''), heap ok_one)"
    "perform (Assign True 1 ''extra'' (VNum 0)) (heap ok_one)
       = (Inl (TypeError ''Cannot add property, object is not extensible''), heap ok_one)"
    by (simp_all add: ok_one_heap on_object_def obj_set_def Ok_instance_def frozen_property_def)
  from tried
    instances_are_immutable [OF example_views(1) respects_frozen_examples(3)
      respects_frozen_examples(2) [of VNull], where xs = tampering]
  show ?thesis
    by (simp add: example_views respects_frozen_examples del: One_nat_def)
qed

lemma with_payload_heap:
  "heap with_payload =
     [new_object ObjectProto,
      \<lparr>proto = ObjectProto, props = [(''n'', data_property (VNum 1))], extensible = True\<rparr>]"
  by (simp add: with_payload_def loaded_def module_heap_def alloc_def)

theorem freeze_is_shallow_witness:
  "1 < length (heap with_payload) \<and>
   fst (ok (VRef 1) with_payload) = Inr (VRef 2) \<and>
   get_prop (heap (snd (ok (VRef 1) with_payload))) (VRef 2) ''value'' = Inr (VRef 1) \<and>
   heap (snd (ok (VRef 1) with_payload)) ! 1 = heap with_payload ! 1 \<and>
   get_prop (heap (snd (ok (VRef 1) with_payload))) (VRef 1) ''n'' = Inr (VNum 1) \<and>
   fst (perform (Assign True 1 ''n'' (VNum 2)) (heap (snd (ok (VRef 1) with_payload)))) = Inr () \<and>
   get_prop (snd (perform (Assign True 1 ''n'' (VNum 2)) (heap (snd (ok (VRef 1) with_payload)))))
     (VRef 1) ''n'' = Inr (VNum 2) \<and>
   fst (perform (Assign True 2 ''value'' (VNum 2)) (heap (snd (ok (VRef 1) with_payload))))
     = Inl (TypeError ''Cannot assign to read only property'')"
proof -
  have len: "1 < length (heap with_payload)" "length (heap with_payload) = 2"
    by (simp_all add: with_payload_heap)
  have run: "on_object 1 (obj_set True ''n'' (VNum 2)) (heap with_payload)
      = (Inr (), [new_object ObjectProto,
           \<lparr>proto = ObjectProto, props = [(''n'', data_property (VNum 2))], extensible = True\<rparr>])"
    by (simp add: with_payload_heap on_object_def obj_set_def data_property_def)
  have refused:
    "fst (perform (Assign True 2 ''value'' (VNum 2)) (heap (snd (ok (VRef 1) with_payload))))
       = Inl (TypeError ''Cannot assign to read only property'')"
    by (simp add: ok_run with_payload_heap on_object_def obj_set_def Ok_instance_def
        frozen_property_def)
  have before: "heap with_payload ! 1
      = \<lparr>proto = ObjectProto, props = [(''n'', data_property (VNum 1))], extensible = True\<rparr>"
    by (simp add: with_payload_heap)
  have after: "length (heap (snd (ok (VRef 1) with_payload))) = 3"
    by (simp add: ok_run with_payload_heap)
  from len after run refused before
    freeze_is_shallow [where s = with_payload and v = "VRef 1" and e = "VRef 1" and p = 1
      and change = "obj_set True ''n'' (VNum 2)"]
  show ?thesis
    by (simp add: get_prop_def obj_get_def data_property_def del: One_nat_def)
qed

end
